theory Spec2Isabelle
  imports Complex_Main "HOL-Library.AList"
begin

section \<open>The d-separation oracle of tigramite (OracleCI)\<close>

text \<open>
  A shallow embedding of \<^verbatim>\<open>tigramite/independence_tests/oracle_conditional_independence.py\<close>.
  Python integers are \<^typ>\<open>int\<close>, a node \<^verbatim>\<open>(var, lag)\<close> is a pair of integers, a
  dictionary is an association list in insertion order (looked up with \<^const>\<open>map_of\<close>,
  written with \<^const>\<open>AList.update\<close>), an exception is a value of type \<open>error\<close>, and a
  \<^verbatim>\<open>while\<close> loop is a partial function whose value \<open>None\<close> means that the loop
  never ends.
\<close>

subsection \<open>Data\<close>

datatype error = ValueError | IndexError | KeyError | NameError | TypeError

type_synonym node = "int \<times> int"

text \<open>
  An entry of \<^verbatim>\<open>links[j]\<close>: either the plain pair \<^verbatim>\<open>(i, tau)\<close> or the triple
  \<^verbatim>\<open>((i, tau), coeff, func)\<close>, told apart in the source by \<^verbatim>\<open>len(link_props) == 3\<close>.
  The function of the triple is never read.
\<close>

datatype link_props = Link int int | LinkCoeff int int real

type_synonym links_t = "(int \<times> link_props list) list"

text \<open>
  The marks of the path search: \<^verbatim>\<open>'tail'\<close>, \<^verbatim>\<open>'arrowhead'\<close> and Python's
  \<^verbatim>\<open>None\<close> (the mark of a start or end node).
\<close>

datatype mark = Tail | Arrowhead | NoMark

text \<open>
  \<^verbatim>\<open>pred\<close> and \<^verbatim>\<open>succ\<close>: a dictionary from nodes to a dictionary from marks to
  the pair \<^verbatim>\<open>(node, mark)\<close> the search came from (\<^verbatim>\<open>None\<close> for the start node).
\<close>

type_synonym path_dict = "(node \<times> (mark \<times> (node \<times> mark) option) list) list"

type_synonym query_key = "node list \<times> node list \<times> node list"

text \<open>
  The fields of an \<^verbatim>\<open>OracleCI\<close> object that the queries read or write.
  \<open>self_max_lag\<close> is \<open>None\<close> until \<^verbatim>\<open>_is_dsep\<close> assigns it. \<open>dsep_calls\<close> is
  not a field of the source: it is an instrumentation counter, incremented exactly where
  \<^verbatim>\<open>run_test\<close> calls \<^verbatim>\<open>self._is_dsep\<close>, and read by nothing.
\<close>

record oracle_ci =
  self_links :: links_t
  self_N :: int
  self_observed_vars :: "int list"
  self_selection_vars :: "int list"
  self_dsepsets :: "(query_key \<times> bool) list"
  self_max_lag :: "int option"
  dsep_calls :: nat

subsection \<open>Python helpers\<close>

text \<open>\<^verbatim>\<open>xs[i]\<close> on a list: a negative index counts from the end, out of range raises.\<close>

definition py_index :: "'a list \<Rightarrow> int \<Rightarrow> error + 'a" where
  "py_index xs i =
     (if 0 \<le> i \<and> i < int (length xs) then Inr (xs ! nat i)
      else if i < 0 \<and> - int (length xs) \<le> i then Inr (xs ! nat (int (length xs) + i))
      else Inl IndexError)"

text \<open>\<^verbatim>\<open>list(OrderedDict.fromkeys(xs))\<close>: the first occurrence of each element, in order.\<close>

definition dedup :: "'a list \<Rightarrow> 'a list" where
  "dedup xs = rev (remdups (rev xs))"

text \<open>\<^verbatim>\<open>d[k]\<close> on a dictionary.\<close>

definition dict_get :: "('k \<times> 'v) list \<Rightarrow> 'k \<Rightarrow> error + 'v" where
  "dict_get d k = (case map_of d k of None \<Rightarrow> Inl KeyError | Some v \<Rightarrow> Inr v)"

text \<open>A \<^verbatim>\<open>for\<close> loop whose body may raise: the first exception ends it.\<close>

fun foldE :: "('s \<Rightarrow> 'a \<Rightarrow> error + 's) \<Rightarrow> 's \<Rightarrow> 'a list \<Rightarrow> error + 's" where
  "foldE f s [] = Inr s"
| "foldE f s (x # xs) = (case f s x of Inl e \<Rightarrow> Inl e | Inr s' \<Rightarrow> foldE f s' xs)"

fun mapE :: "('a \<Rightarrow> error + 'b) \<Rightarrow> 'a list \<Rightarrow> error + 'b list" where
  "mapE f [] = Inr []"
| "mapE f (x # xs) =
     (case f x of Inl e \<Rightarrow> Inl e
      | Inr y \<Rightarrow> (case mapE f xs of Inl e \<Rightarrow> Inl e | Inr ys \<Rightarrow> Inr (y # ys)))"

text \<open>\<^verbatim>\<open>range(0, m + 1)\<close> as a list of integers.\<close>

definition range0 :: "int \<Rightarrow> int list" where
  "range0 m = [0..m]"

subsection \<open>The link index\<close>

fun link_source :: "link_props \<Rightarrow> int \<times> int \<times> real" where
  "link_source (Link i tau) = (i, tau, 1)"
| "link_source (LinkCoeff i tau coeff) = (i, tau, coeff)"

text \<open>
  \<^verbatim>\<open>_get_lagged_parents\<close>. The generator is modelled by the list it yields; the
  \<^verbatim>\<open>KeyError\<close> of \<^verbatim>\<open>self.links[var]\<close> is raised when the first element is asked for.
  The exclusion test of the source reads \<^verbatim>\<open>lag\<close>, the lag of the node, not
  \<^verbatim>\<open>tau\<close>, the lag of the link.
\<close>

definition get_lagged_parents :: "links_t \<Rightarrow> node \<Rightarrow> bool \<Rightarrow> error + node list" where
  "get_lagged_parents lks var_lag exclude_contemp =
     (case var_lag of (var, lag) \<Rightarrow>
        (case dict_get lks var of Inl e \<Rightarrow> Inl e
         | Inr lps \<Rightarrow>
             Inr (concat (map (\<lambda>lp. case link_source lp of (i, tau, coeff) \<Rightarrow>
                    if coeff \<noteq> 0 then
                      (if \<not> (exclude_contemp \<and> lag = 0) then [(i, lag + tau)] else [])
                    else []) lps))))"

text \<open>\<^verbatim>\<open>_get_children\<close>: the children dictionary, keys \<^verbatim>\<open>range(N)\<close>.\<close>

definition children_add ::
  "int \<Rightarrow> (int \<times> node list) list \<Rightarrow> link_props \<Rightarrow> error + (int \<times> node list) list" where
  "children_add j children lp =
     (case link_source lp of (i, tau, coeff) \<Rightarrow>
        if coeff \<noteq> 0 then
          (case dict_get children i of Inl e \<Rightarrow> Inl e
           | Inr cs \<Rightarrow> Inr (AList.update i (cs @ [(j, \<bar>tau\<bar>)]) children))
        else Inr children)"

definition children_row ::
  "links_t \<Rightarrow> (int \<times> node list) list \<Rightarrow> int \<Rightarrow> error + (int \<times> node list) list" where
  "children_row lks children j =
     (case dict_get lks j of Inl e \<Rightarrow> Inl e
      | Inr lps \<Rightarrow> foldE (children_add j) children lps)"

definition get_children :: "links_t \<Rightarrow> error + (int \<times> node list) list" where
  "get_children lks =
     (let N = int (length lks)
      in foldE (children_row lks) (map (\<lambda>j. (j, [])) [0..N - 1]) [0..N - 1])"

text \<open>\<^verbatim>\<open>_get_lagged_children\<close>: here the exclusion test reads the lag of the link.\<close>

definition get_lagged_children ::
  "(int \<times> node list) list \<Rightarrow> node \<Rightarrow> bool \<Rightarrow> error + node list" where
  "get_lagged_children children var_lag exclude_contemp =
     (case var_lag of (var, lag) \<Rightarrow>
        (case dict_get children var of Inl e \<Rightarrow> Inl e
         | Inr cs \<Rightarrow>
             Inr (concat (map (\<lambda>(k, tau).
                    if \<not> (exclude_contemp \<and> tau = 0) then [(k, lag + tau)] else []) cs))))"

subsection \<open>Validation of a query\<close>

text \<open>
  \<^verbatim>\<open>_check_XYZ\<close>. Nodes are pairs of integers here, so the array built from a
  non-empty \<^verbatim>\<open>XYZ\<close> has the shape \<^verbatim>\<open>(dim, 2)\<close>; the array of the empty list has
  the shape \<^verbatim>\<open>(0,)\<close>, which fails the shape test, and \<^verbatim>\<open>np.array([])[:, 1]\<close>
  raises \<^verbatim>\<open>IndexError\<close>.
\<close>

definition check_XYZ ::
  "int \<Rightarrow> node list \<Rightarrow> node list \<Rightarrow> node list \<Rightarrow> error + query_key" where
  "check_XYZ N X Y Z =
     (let X1 = dedup X; Y1 = dedup Y; Z1 = dedup Z;
          Z2 = filter (\<lambda>node. node \<notin> set X1 \<and> node \<notin> set Y1) Z1;
          XYZ = X1 @ Y1 @ Z2
      in if XYZ = [] then Inl ValueError
         else if \<exists>n \<in> set XYZ. snd n > 0 then Inl ValueError
         else if (\<exists>n \<in> set XYZ. fst n \<ge> N) \<or> (\<exists>n \<in> set XYZ. fst n < 0) then Inl ValueError
         else if Y1 = [] then Inl IndexError
         else if \<forall>n \<in> set Y1. snd n \<noteq> 0 then Inl ValueError
         else Inr (X1, Y1, Z2))"

text \<open>
  The translation \<^verbatim>\<open>[(self.observed_vars[x[0]], x[1]) for x in X]\<close> of a query list.
  A node of the caller is a tuple of integers of any length: a tuple shorter than two
  raises \<^verbatim>\<open>IndexError\<close>, the components after the second are dropped.
\<close>

definition translate_node :: "int list \<Rightarrow> int list \<Rightarrow> error + node" where
  "translate_node observed x =
     (case py_index x 0 of Inl e \<Rightarrow> Inl e
      | Inr x0 \<Rightarrow>
          (case py_index observed x0 of Inl e \<Rightarrow> Inl e
           | Inr v \<Rightarrow> (case py_index x 1 of Inl e \<Rightarrow> Inl e | Inr x1 \<Rightarrow> Inr (v, x1))))"

text \<open>The three translations and \<^verbatim>\<open>_check_XYZ\<close>; \<^verbatim>\<open>Z=None\<close> cannot be iterated.\<close>

definition canonical_query ::
  "oracle_ci \<Rightarrow> int list list \<Rightarrow> int list list \<Rightarrow> int list list option \<Rightarrow> error + query_key" where
  "canonical_query orc X Y Z =
     (case mapE (translate_node (self_observed_vars orc)) X of Inl e \<Rightarrow> Inl e
      | Inr X1 \<Rightarrow>
        (case mapE (translate_node (self_observed_vars orc)) Y of Inl e \<Rightarrow> Inl e
         | Inr Y1 \<Rightarrow>
           (case Z of None \<Rightarrow> Inl TypeError
            | Some Zl \<Rightarrow>
              (case mapE (translate_node (self_observed_vars orc)) Zl of Inl e \<Rightarrow> Inl e
               | Inr Z1 \<Rightarrow> check_XYZ (self_N orc) X1 Y1 Z1))))"

subsection \<open>The ancestor search\<close>

datatype anc_mode = NonRepeating | MaxLagMode

text \<open>
  \<^verbatim>\<open>_repeating\<close>: a link or a time-shifted copy of it is already in
  \<^verbatim>\<open>seen_links\<close>.
\<close>

definition repeating :: "node \<times> node \<Rightarrow> (node \<times> node) list \<Rightarrow> bool" where
  "repeating link seen_links =
     (case link of ((i, taui), (j, tauj)) \<Rightarrow>
        list_ex (\<lambda>seen_link. case seen_link of ((seen_i, seen_taui), (seen_j, seen_tauj)) \<Rightarrow>
                   i = seen_i \<and> j = seen_j \<and> \<bar>tauj - taui\<bar> = \<bar>seen_tauj - seen_taui\<bar>)
          seen_links)"

text \<open>
  The state of the search from one \<^verbatim>\<open>y\<close>: \<^verbatim>\<open>ancestors[y]\<close>,
  \<^verbatim>\<open>max_lag\<close>, \<^verbatim>\<open>next_level\<close> and \<^verbatim>\<open>seen_links\<close>.
  \<open>anc_visit\<close> is the body of the innermost loop, for one parent \<^verbatim>\<open>par\<close> of
  \<^verbatim>\<open>varlag\<close>.
\<close>

type_synonym anc_state = "node list \<times> int \<times> node list \<times> (node \<times> node) list"

definition anc_visit :: "anc_mode \<Rightarrow> node list \<Rightarrow> node \<Rightarrow> node \<Rightarrow> anc_state \<Rightarrow> anc_state" where
  "anc_visit mode conds varlag par st =
     (case st of (anc, max_lag, next_level, seen_links) \<Rightarrow>
        if par \<notin> set conds \<and> par \<notin> set anc then
          (if (mode = NonRepeating \<and> \<not> repeating (par, varlag) seen_links)
               \<or> (mode = MaxLagMode \<and> \<bar>snd par\<bar> \<le> \<bar>max_lag\<bar>)
           then (anc @ [par],
                 (if mode = NonRepeating then max max_lag \<bar>snd par\<bar> else max_lag),
                 next_level @ [par],
                 seen_links @ [(par, varlag)])
           else st)
        else st)"

definition anc_level_node ::
  "links_t \<Rightarrow> anc_mode \<Rightarrow> node list \<Rightarrow> anc_state \<Rightarrow> node \<Rightarrow> error + anc_state" where
  "anc_level_node lks mode conds st varlag =
     (case get_lagged_parents lks varlag False of Inl e \<Rightarrow> Inl e
      | Inr pars \<Rightarrow> Inr (fold (anc_visit mode conds varlag) pars st))"

text \<open>The loop \<^verbatim>\<open>while len(this_level) > 0\<close>.\<close>

partial_function (option) anc_while ::
  "links_t \<Rightarrow> anc_mode \<Rightarrow> node list \<Rightarrow> node list \<Rightarrow> node list \<times> int \<times> (node \<times> node) list
     \<Rightarrow> (error + node list \<times> int \<times> (node \<times> node) list) option" where
  "anc_while lks mode conds this_level st =
     (if length this_level > 0 then
        (case st of (anc, max_lag, seen_links) \<Rightarrow>
           (case foldE (anc_level_node lks mode conds) (anc, max_lag, [], seen_links) this_level of
              Inl e \<Rightarrow> Some (Inl e)
            | Inr (anc', max_lag', next_level, seen_links') \<Rightarrow>
                anc_while lks mode conds next_level (anc', max_lag', seen_links')))
      else Some (Inr st))"

declare anc_while.simps [code]

text \<open>
  The body of \<^verbatim>\<open>for y in Y\<close>. Only the entry \<^verbatim>\<open>ancestors[y]\<close> of the
  dictionary is read and written while \<^verbatim>\<open>y\<close> is searched, so it is taken out at
  the start and stored at the end.
\<close>

definition anc_for_y ::
  "links_t \<Rightarrow> anc_mode \<Rightarrow> node list \<Rightarrow> (node \<times> node list) list \<times> int \<Rightarrow> node
     \<Rightarrow> (error + (node \<times> node list) list \<times> int) option" where
  "anc_for_y lks mode conds st y =
     (case st of (ancestors, max_lag) \<Rightarrow>
        (let max_lag1 = (if mode = NonRepeating then max max_lag \<bar>snd y\<bar> else max_lag)
         in case dict_get ancestors y of Inl e \<Rightarrow> Some (Inl e)
            | Inr anc0 \<Rightarrow>
                (case anc_while lks mode conds [y] (anc0, max_lag1, []) of
                   None \<Rightarrow> None
                 | Some (Inl e) \<Rightarrow> Some (Inl e)
                 | Some (Inr (anc, max_lag2, seen_links)) \<Rightarrow>
                     Some (Inr (AList.update y anc ancestors, max_lag2)))))"

text \<open>A \<^verbatim>\<open>for\<close> loop whose body may raise or may never return.\<close>

fun foldOE :: "('s \<Rightarrow> 'a \<Rightarrow> (error + 's) option) \<Rightarrow> 's \<Rightarrow> 'a list \<Rightarrow> (error + 's) option" where
  "foldOE f s [] = Some (Inr s)"
| "foldOE f s (x # xs) =
     (case f s x of None \<Rightarrow> None
      | Some (Inl e) \<Rightarrow> Some (Inl e)
      | Some (Inr s') \<Rightarrow> foldOE f s' xs)"

text \<open>
  The conditions every search adds for the selection variables:
  \<^verbatim>\<open>conds += [(selection_var, -tau_sel) for tau_sel in range(0, max_lag + 1)]\<close> for
  each selection variable.
\<close>

definition selection_conds :: "int list \<Rightarrow> int \<Rightarrow> node list" where
  "selection_conds selection_vars max_lag =
     concat (map (\<lambda>selection_var. map (\<lambda>tau_sel. (selection_var, - tau_sel)) (range0 max_lag))
               selection_vars)"

text \<open>
  The conditioning list of \<^verbatim>\<open>_get_non_blocked_ancestors\<close> when its searches start:
  in mode \<^verbatim>\<open>'non_repeating'\<close> the variable \<^verbatim>\<open>max_lag\<close> has just been set to 0.
\<close>

definition anc_conds :: "int list \<Rightarrow> node list \<Rightarrow> node list \<Rightarrow> int \<Rightarrow> node list" where
  "anc_conds selection_vars Y conds max_lag0 =
     filter (\<lambda>z. z \<notin> set Y) conds @ selection_conds selection_vars max_lag0"

text \<open>\<^verbatim>\<open>_get_non_blocked_ancestors\<close>.\<close>

definition get_non_blocked_ancestors ::
  "oracle_ci \<Rightarrow> node list \<Rightarrow> node list \<Rightarrow> anc_mode \<Rightarrow> int option
     \<Rightarrow> (error + (node \<times> node list) list \<times> int) option" where
  "get_non_blocked_ancestors orc Y conds mode max_lag =
     (case (if mode = NonRepeating then Inr 0
            else (case max_lag of None \<Rightarrow> Inl ValueError | Some m \<Rightarrow> Inr m)) of
        Inl e \<Rightarrow> Some (Inl e)
      | Inr max_lag0 \<Rightarrow>
          foldOE (anc_for_y (self_links orc) mode
                    (anc_conds (self_selection_vars orc) Y conds max_lag0))
            (fold (\<lambda>y d. AList.update y [] d) Y [], max_lag0) Y)"

text \<open>\<^verbatim>\<open>_get_max_lag_from_XYZ\<close>.\<close>

definition get_max_lag_from_XYZ ::
  "oracle_ci \<Rightarrow> node list \<Rightarrow> node list \<Rightarrow> node list \<Rightarrow> (error + int) option" where
  "get_max_lag_from_XYZ orc X Y Z =
     (case get_non_blocked_ancestors orc X Z NonRepeating None of
        None \<Rightarrow> None | Some (Inl e) \<Rightarrow> Some (Inl e)
      | Some (Inr (ax, max_lag_X)) \<Rightarrow>
     (case get_non_blocked_ancestors orc Y Z NonRepeating None of
        None \<Rightarrow> None | Some (Inl e) \<Rightarrow> Some (Inl e)
      | Some (Inr (ay, max_lag_Y)) \<Rightarrow>
     (case get_non_blocked_ancestors orc Z Z NonRepeating None of
        None \<Rightarrow> None | Some (Inl e) \<Rightarrow> Some (Inl e)
      | Some (Inr (az, max_lag_Z)) \<Rightarrow>
          Some (Inr (max (max max_lag_X max_lag_Y) max_lag_Z)))))"

subsection \<open>The path search\<close>

text \<open>
  What the helper functions nested in \<^verbatim>\<open>_has_any_path\<close> read from the enclosing
  call: the links, the children dictionary, the conditioning list after the selection
  variables were added, \<^verbatim>\<open>max_lag\<close> and \<^verbatim>\<open>backdoor\<close>.
\<close>

record search_ctx =
  ctx_links :: links_t
  ctx_children :: "(int \<times> node list) list"
  ctx_conds :: "node list"
  ctx_max_lag :: int
  ctx_backdoor :: bool

text \<open>\<^verbatim>\<open>w in d\<close>, \<^verbatim>\<open>m in d[w]\<close> and the two ways of writing \<^verbatim>\<open>d[w][m]\<close>.\<close>

definition in_dict :: "path_dict \<Rightarrow> node \<Rightarrow> bool" where
  "in_dict d w = (map_of d w \<noteq> None)"

definition has_mark :: "path_dict \<Rightarrow> node \<Rightarrow> mark \<Rightarrow> bool" where
  "has_mark d w m = (case map_of d w of None \<Rightarrow> False | Some md \<Rightarrow> map_of md m \<noteq> None)"

definition set_mark :: "path_dict \<Rightarrow> node \<Rightarrow> mark \<Rightarrow> node \<times> mark \<Rightarrow> path_dict" where
  "set_mark d w m val =
     (case map_of d w of
        None \<Rightarrow> AList.update w [(m, Some val)] d
      | Some md \<Rightarrow> AList.update w (AList.update m (Some val) md) d)"

text \<open>
  The loop of \<^verbatim>\<open>_walk_to_parents\<close> over the parents \<^verbatim>\<open>w\<close> of \<^verbatim>\<open>v\<close>;
  the result is \<^verbatim>\<open>(found_connection, fringe, this_path)\<close>, with \<open>None\<close> for
  \<^verbatim>\<open>False\<close>.
\<close>

fun walk_parents_loop ::
  "search_ctx \<Rightarrow> node \<Rightarrow> node \<Rightarrow> path_dict \<Rightarrow> node list \<Rightarrow> (node \<times> mark) list \<Rightarrow> path_dict
     \<Rightarrow> (node \<times> mark) option \<times> (node \<times> mark) list \<times> path_dict" where
  "walk_parents_loop ctx x v other_path [] fringe this_path = (None, fringe, this_path)"
| "walk_parents_loop ctx x v other_path (w # ws) fringe this_path =
     (if ctx_backdoor ctx \<and> w = x then walk_parents_loop ctx x v other_path ws fringe this_path
      else if w \<notin> set (ctx_conds ctx) \<and> snd w \<le> 0 \<and> \<bar>snd w\<bar> \<le> ctx_max_lag ctx then
        (let new = (\<not> in_dict this_path w
                      \<or> (\<not> has_mark this_path w Tail \<and> \<not> has_mark this_path w NoMark));
             fringe' = (if new then fringe @ [(w, Tail)] else fringe);
             this_path' = (if new then set_mark this_path w Tail (v, Arrowhead) else this_path)
         in if in_dict other_path w then (Some (w, Tail), fringe', this_path')
            else walk_parents_loop ctx x v other_path ws fringe' this_path')
      else walk_parents_loop ctx x v other_path ws fringe this_path)"

definition walk_to_parents ::
  "search_ctx \<Rightarrow> node \<Rightarrow> node \<Rightarrow> (node \<times> mark) list \<Rightarrow> path_dict \<Rightarrow> path_dict
     \<Rightarrow> error + (node \<times> mark) option \<times> (node \<times> mark) list \<times> path_dict" where
  "walk_to_parents ctx x v fringe this_path other_path =
     (case get_lagged_parents (ctx_links ctx) v False of Inl e \<Rightarrow> Inl e
      | Inr ws \<Rightarrow> Inr (walk_parents_loop ctx x v other_path ws fringe this_path))"

text \<open>The loop of \<^verbatim>\<open>_walk_to_children\<close> over the children \<^verbatim>\<open>w\<close> of \<^verbatim>\<open>v\<close>.\<close>

fun walk_children_loop ::
  "search_ctx \<Rightarrow> node \<Rightarrow> path_dict \<Rightarrow> node list \<Rightarrow> (node \<times> mark) list \<Rightarrow> path_dict
     \<Rightarrow> (node \<times> mark) option \<times> (node \<times> mark) list \<times> path_dict" where
  "walk_children_loop ctx v other_path [] fringe this_path = (None, fringe, this_path)"
| "walk_children_loop ctx v other_path (w # ws) fringe this_path =
     (if snd w \<le> 0 \<and> \<bar>snd w\<bar> \<le> ctx_max_lag ctx then
        (let new = (\<not> in_dict this_path w
                      \<or> (\<not> has_mark this_path w Arrowhead \<and> \<not> has_mark this_path w NoMark));
             fringe' = (if new then fringe @ [(w, Arrowhead)] else fringe);
             this_path' = (if new then set_mark this_path w Arrowhead (v, Tail) else this_path)
         in if in_dict other_path w
               \<and> ((has_mark other_path w Tail \<and> w \<notin> set (ctx_conds ctx))
                    \<or> (has_mark other_path w Arrowhead \<and> w \<in> set (ctx_conds ctx))
                    \<or> has_mark other_path w NoMark)
            then (Some (w, Arrowhead), fringe', this_path')
            else walk_children_loop ctx v other_path ws fringe' this_path')
      else walk_children_loop ctx v other_path ws fringe this_path)"

definition walk_to_children ::
  "search_ctx \<Rightarrow> node \<Rightarrow> (node \<times> mark) list \<Rightarrow> path_dict \<Rightarrow> path_dict
     \<Rightarrow> error + (node \<times> mark) option \<times> (node \<times> mark) list \<times> path_dict" where
  "walk_to_children ctx v fringe this_path other_path =
     (case get_lagged_children (ctx_children ctx) v False of Inl e \<Rightarrow> Inl e
      | Inr ws \<Rightarrow> Inr (walk_children_loop ctx v other_path ws fringe this_path))"

text \<open>
  The loop \<^verbatim>\<open>for v, mark in this_level\<close> of \<^verbatim>\<open>_walk_fringe\<close>, left by
  \<^verbatim>\<open>break\<close> as soon as a connection is found.
\<close>

fun walk_fringe_loop ::
  "search_ctx \<Rightarrow> node \<Rightarrow> path_dict \<Rightarrow> (node \<times> mark) list \<Rightarrow> (node \<times> mark) list \<Rightarrow> path_dict
     \<Rightarrow> error + (node \<times> mark) option \<times> (node \<times> mark) list \<times> path_dict" where
  "walk_fringe_loop ctx x other_path [] fringe this_path = Inr (None, fringe, this_path)"
| "walk_fringe_loop ctx x other_path ((v, mark) # rest) fringe this_path =
     (if v \<in> set (ctx_conds ctx) then
        (if mark = Arrowhead \<or> mark = NoMark then
           (case walk_to_parents ctx x v fringe this_path other_path of Inl e \<Rightarrow> Inl e
            | Inr (found, fringe1, path1) \<Rightarrow>
                if found \<noteq> None then Inr (found, fringe1, path1)
                else walk_fringe_loop ctx x other_path rest fringe1 path1)
         else walk_fringe_loop ctx x other_path rest fringe this_path)
      else
        (if mark = Tail \<or> mark = NoMark then
           (case walk_to_parents ctx x v fringe this_path other_path of Inl e \<Rightarrow> Inl e
            | Inr (found, fringe1, path1) \<Rightarrow>
                if found \<noteq> None then Inr (found, fringe1, path1)
                else
                  (case walk_to_children ctx v fringe1 path1 other_path of Inl e \<Rightarrow> Inl e
                   | Inr (found2, fringe2, path2) \<Rightarrow>
                       if found2 \<noteq> None then Inr (found2, fringe2, path2)
                       else walk_fringe_loop ctx x other_path rest fringe2 path2))
         else if mark = Arrowhead then
           (case walk_to_children ctx v fringe this_path other_path of Inl e \<Rightarrow> Inl e
            | Inr (found, fringe1, path1) \<Rightarrow>
                if found \<noteq> None then Inr (found, fringe1, path1)
                else walk_fringe_loop ctx x other_path rest fringe1 path1)
         else walk_fringe_loop ctx x other_path rest fringe this_path))"

text \<open>\<^verbatim>\<open>_walk_fringe\<close>, with its first step in \<^verbatim>\<open>backdoor\<close> mode.\<close>

definition walk_fringe ::
  "search_ctx \<Rightarrow> node \<Rightarrow> (node \<times> mark) list \<Rightarrow> (node \<times> mark) list \<Rightarrow> path_dict \<Rightarrow> path_dict
     \<Rightarrow> error + (node \<times> mark) option \<times> (node \<times> mark) list \<times> path_dict" where
  "walk_fringe ctx x this_level fringe this_path other_path =
     (if ctx_backdoor ctx \<and> this_level = [(x, NoMark)]
      then walk_to_parents ctx x x fringe this_path other_path
      else walk_fringe_loop ctx x other_path this_level fringe this_path)"

text \<open>
  The loop \<^verbatim>\<open>while forward_fringe and reverse_fringe\<close>. The source calls
  \<^verbatim>\<open>backtrace_path\<close> and returns inside the loop; here the loop returns the
  connection with the two dictionaries, and \<open>has_path_xy\<close> below calls
  \<open>backtrace_path\<close> on them. \<open>Inr None\<close> is a loop that ended with an empty fringe.
\<close>

partial_function (option) search_while ::
  "search_ctx \<Rightarrow> node \<Rightarrow> (node \<times> mark) list \<Rightarrow> (node \<times> mark) list \<Rightarrow> path_dict \<Rightarrow> path_dict
     \<Rightarrow> (error + ((node \<times> mark) \<times> path_dict \<times> path_dict) option) option" where
  "search_while ctx x forward_fringe reverse_fringe pred succ =
     (if forward_fringe \<noteq> [] \<and> reverse_fringe \<noteq> [] then
        (if length forward_fringe \<le> length reverse_fringe then
           (case walk_fringe ctx x forward_fringe [] pred succ of
              Inl e \<Rightarrow> Some (Inl e)
            | Inr (found_connection, forward_fringe', pred') \<Rightarrow>
                (case found_connection of
                   Some fc \<Rightarrow> Some (Inr (Some (fc, pred', succ)))
                 | None \<Rightarrow> search_while ctx x forward_fringe' reverse_fringe pred' succ))
         else
           (case walk_fringe ctx x reverse_fringe [] succ pred of
              Inl e \<Rightarrow> Some (Inl e)
            | Inr (found_connection, reverse_fringe', succ') \<Rightarrow>
                (case found_connection of
                   Some fc \<Rightarrow> Some (Inr (Some (fc, pred, succ')))
                 | None \<Rightarrow> search_while ctx x forward_fringe reverse_fringe' pred succ')))
      else Some (Inr None))"

declare search_while.simps [code]

text \<open>
  One of the two loops of \<^verbatim>\<open>backtrace_path\<close>: \<^verbatim>\<open>while path[-1] != x\<close> over
  \<^verbatim>\<open>pred\<close>, and \<^verbatim>\<open>while path[-1] != y\<close> over \<^verbatim>\<open>succ\<close>.
\<close>

definition next_mark ::
  "path_dict \<Rightarrow> node list \<Rightarrow> node \<Rightarrow> mark \<Rightarrow> node \<Rightarrow> mark \<Rightarrow> error + mark" where
  "next_mark d conds node mark prev_node prev_mark =
     (if prev_mark = Arrowhead then
        Inr (if prev_node \<notin> set conds then Tail else Arrowhead)
      else if prev_mark = Tail then
        (case dict_get d prev_node of Inl e \<Rightarrow> Inl e
         | Inr md \<Rightarrow>
             Inr (if map_of md Tail \<noteq> None \<and> map_of md Tail \<noteq> Some (Some (node, mark))
                  then Tail else Arrowhead))
      else Inr mark)"

partial_function (option) backtrace_while ::
  "path_dict \<Rightarrow> node list \<Rightarrow> node \<Rightarrow> node list \<Rightarrow> node \<Rightarrow> mark \<Rightarrow> (error + node list) option" where
  "backtrace_while d conds target path node mark =
     (if last path \<noteq> target then
        (case dict_get d node of Inl e \<Rightarrow> Some (Inl e)
         | Inr md \<Rightarrow>
            (case dict_get md mark of Inl e \<Rightarrow> Some (Inl e)
             | Inr None \<Rightarrow> Some (Inl TypeError)
             | Inr (Some (prev_node, prev_mark)) \<Rightarrow>
                (case next_mark d conds node mark prev_node prev_mark of
                   Inl e \<Rightarrow> Some (Inl e)
                 | Inr mark' \<Rightarrow>
                     backtrace_while d conds target (path @ [prev_node]) prev_node mark')))
      else Some (Inr path))"

declare backtrace_while.simps [code]

text \<open>The mark \<^verbatim>\<open>backtrace_path\<close> starts each of its loops with.\<close>

definition start_mark :: "path_dict \<Rightarrow> node \<Rightarrow> error + mark" where
  "start_mark d node =
     (case dict_get d node of Inl e \<Rightarrow> Inl e
      | Inr md \<Rightarrow> Inr (if map_of md Tail \<noteq> None then Tail else Arrowhead))"

definition backtrace_path ::
  "node list \<Rightarrow> node \<Rightarrow> node \<Rightarrow> node \<times> mark \<Rightarrow> path_dict \<Rightarrow> path_dict
     \<Rightarrow> (error + node list) option" where
  "backtrace_path conds x y found_connection pred succ =
     (case start_mark pred (fst found_connection) of Inl e \<Rightarrow> Some (Inl e)
      | Inr mark1 \<Rightarrow>
        (case backtrace_while pred conds x [fst found_connection] (fst found_connection) mark1 of
           None \<Rightarrow> None
         | Some (Inl e) \<Rightarrow> Some (Inl e)
         | Some (Inr path1) \<Rightarrow>
            (case start_mark succ (fst found_connection) of Inl e \<Rightarrow> Some (Inl e)
             | Inr mark2 \<Rightarrow>
                 backtrace_while succ conds y (rev path1) (fst found_connection) mark2)))"

text \<open>The body of \<^verbatim>\<open>for x in X: for y in Y\<close>; \<open>Inr None\<close> is "no path for this pair".\<close>

definition has_path_xy :: "search_ctx \<Rightarrow> node \<Rightarrow> node \<Rightarrow> (error + node list option) option" where
  "has_path_xy ctx x y =
     (case search_while ctx x [(x, NoMark)] [(y, NoMark)]
             [(x, [(NoMark, None)])] [(y, [(NoMark, None)])] of
        None \<Rightarrow> None
      | Some (Inl e) \<Rightarrow> Some (Inl e)
      | Some (Inr None) \<Rightarrow> Some (Inr None)
      | Some (Inr (Some (fc, pred, succ))) \<Rightarrow>
          (case backtrace_path (ctx_conds ctx) x y fc pred succ of
             None \<Rightarrow> None
           | Some (Inl e) \<Rightarrow> Some (Inl e)
           | Some (Inr path) \<Rightarrow> Some (Inr (Some path))))"

text \<open>The two nested \<^verbatim>\<open>for\<close> loops, left by \<^verbatim>\<open>return path\<close> at the first path.\<close>

fun search_pairs :: "search_ctx \<Rightarrow> (node \<times> node) list \<Rightarrow> (error + node list option) option" where
  "search_pairs ctx [] = Some (Inr None)"
| "search_pairs ctx ((x, y) # rest) =
     (case has_path_xy ctx x y of
        None \<Rightarrow> None
      | Some (Inl e) \<Rightarrow> Some (Inl e)
      | Some (Inr (Some path)) \<Rightarrow> Some (Inr (Some path))
      | Some (Inr None) \<Rightarrow> search_pairs ctx rest)"

text \<open>The conditioning list of \<^verbatim>\<open>_has_any_path\<close> when its searches start.\<close>

definition path_conds :: "int list \<Rightarrow> node list \<Rightarrow> node list \<Rightarrow> node list \<Rightarrow> int \<Rightarrow> node list" where
  "path_conds selection_vars X Y conds max_lag =
     filter (\<lambda>z. z \<notin> set Y \<and> z \<notin> set X) conds @ selection_conds selection_vars max_lag"

text \<open>\<^verbatim>\<open>_has_any_path\<close>: \<open>Inr None\<close> is the result \<^verbatim>\<open>False\<close>.\<close>

definition has_any_path ::
  "oracle_ci \<Rightarrow> node list \<Rightarrow> node list \<Rightarrow> node list \<Rightarrow> int \<Rightarrow> bool
     \<Rightarrow> (error + node list option) option" where
  "has_any_path orc X Y conds max_lag backdoor =
     (case get_children (self_links orc) of Inl e \<Rightarrow> Some (Inl e)
      | Inr children \<Rightarrow>
          search_pairs
            \<lparr>ctx_links = self_links orc, ctx_children = children,
             ctx_conds = path_conds (self_selection_vars orc) X Y conds max_lag,
             ctx_max_lag = max_lag, ctx_backdoor = backdoor\<rparr>
            (concat (map (\<lambda>x. map (\<lambda>y. (x, y)) Y) X)))"

subsection \<open>The queries\<close>

text \<open>
  \<^verbatim>\<open>_is_dsep\<close>. It assigns \<^verbatim>\<open>self.max_lag\<close> before the path search, so the
  object is returned with every outcome. A path is a non-empty list, hence true.
\<close>

definition is_dsep ::
  "oracle_ci \<Rightarrow> node list \<Rightarrow> node list \<Rightarrow> node list \<Rightarrow> int option
     \<Rightarrow> ((error + bool) \<times> oracle_ci) option" where
  "is_dsep orc X Y Z max_lag =
     (case (case max_lag of Some m \<Rightarrow> Some (Inr m) | None \<Rightarrow> get_max_lag_from_XYZ orc X Y Z) of
        None \<Rightarrow> None
      | Some (Inl e) \<Rightarrow> Some (Inl e, orc)
      | Some (Inr m) \<Rightarrow>
          (let orc1 = orc\<lparr>self_max_lag := Some m\<rparr>
           in case has_any_path orc1 X Y Z m False of
                None \<Rightarrow> None
              | Some (Inl e) \<Rightarrow> Some (Inl e, orc1)
              | Some (Inr any_path) \<Rightarrow> Some (Inr (any_path = None), orc1)))"

text \<open>
  \<^verbatim>\<open>run_test\<close>. The key \<^verbatim>\<open>str((X, Y, Z))\<close> of the cache is modelled by the
  triple itself. \<^verbatim>\<open>tau_max\<close> and \<^verbatim>\<open>cut_off\<close> are parameters of the source;
  \<^verbatim>\<open>verbosity\<close> only prints and is left out.
\<close>

definition verdict_pair :: "bool \<Rightarrow> real \<times> real" where
  "verdict_pair dseparated = (if dseparated then (0, 1) else (1, 0))"

definition run_test ::
  "oracle_ci \<Rightarrow> int list list \<Rightarrow> int list list \<Rightarrow> int list list option \<Rightarrow> int \<Rightarrow> string
     \<Rightarrow> ((error + real \<times> real) \<times> oracle_ci) option" where
  "run_test orc X Y Z tau_max cut_off =
     (case canonical_query orc X Y Z of
        Inl e \<Rightarrow> Some (Inl e, orc)
      | Inr (X1, Y1, Z1) \<Rightarrow>
          (case map_of (self_dsepsets orc) (X1, Y1, Z1) of
             Some dseparated \<Rightarrow> Some (Inr (verdict_pair dseparated), orc)
           | None \<Rightarrow>
               (case is_dsep (orc\<lparr>dsep_calls := Suc (dsep_calls orc)\<rparr>) X1 Y1 Z1 None of
                  None \<Rightarrow> None
                | Some (Inl e, orc1) \<Rightarrow> Some (Inl e, orc1)
                | Some (Inr dseparated, orc1) \<Rightarrow>
                    Some (Inr (verdict_pair dseparated),
                          orc1\<lparr>self_dsepsets :=
                                  AList.update (X1, Y1, Z1) dseparated (self_dsepsets orc1)\<rparr>))))"

text \<open>
  \<^verbatim>\<open>get_measure\<close>. After the three translations it calls \<^verbatim>\<open>_check_XYZ(X, Y, Z)\<close>,
  a name that is bound neither in the method nor in the module (the method is
  \<^verbatim>\<open>self._check_XYZ\<close>), so the call raises \<^verbatim>\<open>NameError\<close> and the rest of the body is
  never reached.
\<close>

definition get_measure ::
  "oracle_ci \<Rightarrow> int list list \<Rightarrow> int list list \<Rightarrow> int list list option \<Rightarrow> int
     \<Rightarrow> (error + real) \<times> oracle_ci" where
  "get_measure orc X Y Z tau_max =
     (case mapE (translate_node (self_observed_vars orc)) X of Inl e \<Rightarrow> (Inl e, orc)
      | Inr X1 \<Rightarrow>
        (case mapE (translate_node (self_observed_vars orc)) Y of Inl e \<Rightarrow> (Inl e, orc)
         | Inr Y1 \<Rightarrow>
           (case Z of None \<Rightarrow> (Inl TypeError, orc)
            | Some Zl \<Rightarrow>
              (case mapE (translate_node (self_observed_vars orc)) Zl of Inl e \<Rightarrow> (Inl e, orc)
               | Inr Z1 \<Rightarrow> (Inl NameError, orc)))))"

text \<open>
  \<^verbatim>\<open>__init__\<close> from a links dictionary: \<^verbatim>\<open>N = len(links)\<close>, the cache is empty,
  and the two variable lists are checked to be duplicate-free sorted subsets of
  \<^verbatim>\<open>range(N)\<close>.
\<close>

definition vars_ok :: "int \<Rightarrow> int list \<Rightarrow> bool" where
  "vars_ok n vs = (set vs \<subseteq> set [0..n - 1] \<and> vs = sort vs \<and> distinct vs)"

definition init_links :: "links_t \<Rightarrow> int list option \<Rightarrow> int list option \<Rightarrow> error + oracle_ci" where
  "init_links lks observed selection =
     (let n = int (length lks)
      in if (case observed of None \<Rightarrow> False | Some vs \<Rightarrow> \<not> vars_ok n vs) then Inl ValueError
         else if (case selection of None \<Rightarrow> False | Some vs \<Rightarrow> \<not> vars_ok n vs) then Inl ValueError
         else Inr \<lparr>self_links = lks, self_N = n,
                   self_observed_vars = (case observed of None \<Rightarrow> [0..n - 1] | Some vs \<Rightarrow> vs),
                   self_selection_vars = (case selection of None \<Rightarrow> [] | Some vs \<Rightarrow> vs),
                   self_dsepsets = [], self_max_lag = None, dsep_calls = 0\<rparr>)"

subsection \<open>Compiling a graph array\<close>

text \<open>
  The argument of \<^verbatim>\<open>get_links_from_graph\<close>: an array of shape \<^verbatim>\<open>(N, N, tau_max + 1)\<close>
  of strings, read as \<^verbatim>\<open>graph[i, j, tau]\<close>. Its element type is \<^verbatim>\<open><U3\<close>, which the
  first test of the function asks for.
\<close>

record graph_array =
  g_N :: nat
  g_T :: nat
  g_cell :: "nat \<Rightarrow> nat \<Rightarrow> nat \<Rightarrow> string"

record compile_state =
  c_links :: links_t
  c_selection_vars :: "int list"
  c_latent_index :: int

text \<open>\<^verbatim>\<open>_reverse_patt\<close>; a pattern of one or two characters cannot be indexed at 2.\<close>

definition reverse_patt :: "string \<Rightarrow> error + string" where
  "reverse_patt patt =
     (if patt = [] then Inr []
      else (case patt of
              left_mark # middle_mark # right_mark # rest \<Rightarrow>
                Inr [if right_mark = CHR ''>'' then CHR ''<'' else right_mark,
                     middle_mark,
                     if left_mark = CHR ''<'' then CHR ''>'' else left_mark]
            | _ \<Rightarrow> Inl IndexError))"

text \<open>\<^verbatim>\<open>zip(*np.where(graph))\<close>: the indices of the non-empty cells, in row-major order.\<close>

definition nonzero_cells :: "graph_array \<Rightarrow> (nat \<times> nat \<times> nat) list" where
  "nonzero_cells g =
     filter (\<lambda>(i, j, tau). g_cell g i j tau \<noteq> [])
       (List.product [0..<g_N g] (List.product [0..<g_N g] [0..<g_T g]))"

text \<open>\<^verbatim>\<open>links[j].append(lp)\<close>.\<close>

definition links_append :: "links_t \<Rightarrow> int \<Rightarrow> link_props \<Rightarrow> error + links_t" where
  "links_append lks j lp =
     (case dict_get lks j of Inl e \<Rightarrow> Inl e
      | Inr l \<Rightarrow> Inr (AList.update j (l @ [lp]) lks))"

text \<open>
  The part of the loop body after the lag-zero and lagged tests: the chain
  \<^verbatim>\<open>if edge_type == "-->" ... elif ... "---"\<close>.
\<close>

definition insert_edge ::
  "graph_array \<Rightarrow> compile_state \<Rightarrow> nat \<times> nat \<times> nat \<Rightarrow> error + compile_state" where
  "insert_edge g st c =
     (case c of (i, j, tau) \<Rightarrow>
       (let edge_type = g_cell g i j tau; latent_index = c_latent_index st
        in if edge_type = ''-->'' then
             (case links_append (c_links st) (int j) (Link (int i) (- int tau)) of
                Inl e \<Rightarrow> Inl e
              | Inr l \<Rightarrow> Inr (st\<lparr>c_links := l\<rparr>))
           else if edge_type = ''<--'' then
             (case links_append (c_links st) (int i) (Link (int j) (- int tau)) of
                Inl e \<Rightarrow> Inl e
              | Inr l \<Rightarrow> Inr (st\<lparr>c_links := l\<rparr>))
           else if edge_type = ''<->'' then
             (case links_append (AList.update latent_index [] (c_links st)) (int i)
                     (Link latent_index 0) of
                Inl e \<Rightarrow> Inl e
              | Inr l1 \<Rightarrow>
                  (case links_append l1 (int j) (Link latent_index (- int tau)) of
                     Inl e \<Rightarrow> Inl e
                   | Inr l2 \<Rightarrow>
                       Inr (st\<lparr>c_links := l2, c_latent_index := latent_index + 1\<rparr>)))
           else if edge_type = ''---'' then
             (case links_append (AList.update latent_index [] (c_links st)) latent_index
                     (Link (int i) (- int tau)) of
                Inl e \<Rightarrow> Inl e
              | Inr l1 \<Rightarrow>
                  (case links_append l1 latent_index (Link (int j) 0) of
                     Inl e \<Rightarrow> Inl e
                   | Inr l2 \<Rightarrow>
                       Inr (st\<lparr>c_links := l2,
                               c_selection_vars := c_selection_vars st @ [latent_index],
                               c_latent_index := latent_index + 1\<rparr>)))
           else Inr st))"

text \<open>
  The body of \<^verbatim>\<open>for i, j, tau in zip(*np.where(graph))\<close>. At lag zero the cell is
  compared with the reversed mirror cell, and \<^verbatim>\<open>if j > i: continue\<close> leaves the body.
\<close>

definition compile_step ::
  "graph_array \<Rightarrow> compile_state \<Rightarrow> nat \<times> nat \<times> nat \<Rightarrow> error + compile_state" where
  "compile_step g st c =
     (case c of (i, j, tau) \<Rightarrow>
        if tau = 0 then
          (case reverse_patt (g_cell g j i 0) of Inl e \<Rightarrow> Inl e
           | Inr r \<Rightarrow>
               if g_cell g i j 0 \<noteq> r then Inl ValueError
               else if j > i then Inr st
               else insert_edge g st c)
        else if g_cell g i j tau \<notin> set [''-->'', ''<->'', ''---''] then Inl ValueError
        else insert_edge g st c)"

definition compile_init :: "graph_array \<Rightarrow> compile_state" where
  "compile_init g =
     \<lparr>c_links = map (\<lambda>j. (int j, [])) [0..<g_N g], c_selection_vars = [],
      c_latent_index = int (g_N g)\<rparr>"

text \<open>\<^verbatim>\<open>get_links_from_graph\<close>: the links, the observed and the selection variables.\<close>

definition get_links_from_graph :: "graph_array \<Rightarrow> error + links_t \<times> int list \<times> int list" where
  "get_links_from_graph g =
     (case foldE (compile_step g) (compile_init g) (nonzero_cells g) of
        Inl e \<Rightarrow> Inl e
      | Inr st \<Rightarrow> Inr (c_links st, map int [0..<g_N g], c_selection_vars st))"

text \<open>The cells of the array whose loop body gets past the lag-zero \<^verbatim>\<open>continue\<close>.\<close>

definition processed_cells :: "graph_array \<Rightarrow> (nat \<times> nat \<times> nat) list" where
  "processed_cells g = filter (\<lambda>(i, j, tau). \<not> (tau = 0 \<and> j > i)) (nonzero_cells g)"

text \<open>\<^verbatim>\<open>__init__\<close> from a graph array.\<close>

definition init_graph :: "graph_array \<Rightarrow> error + oracle_ci" where
  "init_graph g =
     (case get_links_from_graph g of Inl e \<Rightarrow> Inl e
      | Inr (lks, observed, selection) \<Rightarrow> init_links lks (Some observed) (Some selection))"

subsection \<open>Concrete oracles and graphs\<close>

text \<open>
  A contemporaneous graph on seven variables: \<open>0 \<rightarrow> 2\<close>, \<open>1 \<rightarrow> 2\<close>, \<open>2 \<rightarrow> 3\<close>, \<open>2 \<rightarrow> 4\<close>,
  \<open>4 \<rightarrow> 5\<close>, \<open>3 \<rightarrow> 5\<close> and \<open>1 \<rightarrow> 6\<close>, every variable observed, no selection variable.
\<close>

definition ex_links :: links_t where
  "ex_links = [(0, []), (1, []), (2, [Link 0 0, Link 1 0]), (3, [Link 2 0]), (4, [Link 2 0]),
               (5, [Link 4 0, Link 3 0]), (6, [Link 1 0])]"

definition ex_oracle :: oracle_ci where
  "ex_oracle = \<lparr>self_links = ex_links, self_N = 7, self_observed_vars = [0, 1, 2, 3, 4, 5, 6],
                 self_selection_vars = [], self_dsepsets = [], self_max_lag = None,
                 dsep_calls = 0\<rparr>"

text \<open>
  The search from \<open>(0, 0)\<close> to \<open>(1, 0)\<close> given \<open>(5, 0)\<close> in that graph: its context, and
  the dictionaries \<^verbatim>\<open>pred\<close> and \<^verbatim>\<open>succ\<close> when the connection is found.
\<close>

definition ex_ctx :: search_ctx where
  "ex_ctx = \<lparr>ctx_links = ex_links,
     ctx_children = [(0, [(2, 0)]), (1, [(2, 0), (6, 0)]), (2, [(3, 0), (4, 0)]),
                     (3, [(5, 0)]), (4, [(5, 0)]), (5, []), (6, [])],
     ctx_conds = [(5, 0)], ctx_max_lag = 0, ctx_backdoor = False\<rparr>"

definition ex_pred :: path_dict where
  "ex_pred = [((0, 0), [(NoMark, None)]),
              ((2, 0), [(Arrowhead, Some ((0, 0), Tail)), (Tail, Some ((4, 0), Arrowhead))]),
              ((3, 0), [(Arrowhead, Some ((2, 0), Tail)), (Tail, Some ((5, 0), Arrowhead))]),
              ((4, 0), [(Arrowhead, Some ((2, 0), Tail)), (Tail, Some ((5, 0), Arrowhead))]),
              ((5, 0), [(Arrowhead, Some ((3, 0), Tail))])]"

definition ex_succ :: path_dict where
  "ex_succ = [((1, 0), [(NoMark, None)]),
              ((2, 0), [(Arrowhead, Some ((1, 0), Tail))]),
              ((6, 0), [(Arrowhead, Some ((1, 0), Tail))])]"

text \<open>The pairs \<^verbatim>\<open>(node, mark)\<close> the first loop of \<^verbatim>\<open>backtrace_path\<close> runs through there.\<close>

definition ex_cycle :: "(node \<times> mark) set" where
  "ex_cycle = {((2, 0), Tail), ((4, 0), Tail), ((5, 0), Arrowhead), ((3, 0), Arrowhead)}"

text \<open>The oracle after the query with \<open>X\<close> and \<open>Y\<close> exchanged has been answered.\<close>

definition ex_oracle_after :: oracle_ci where
  "ex_oracle_after =
     ex_oracle\<lparr>self_dsepsets := [(([(1, 0)], [(0, 0)], [(5, 0)]), False)],
               self_max_lag := Some 0, dsep_calls := 1\<rparr>"

text \<open>Three variables, the link \<open>2 \<rightarrow> 0\<close> at lag 1, and the variable 2 selected.\<close>

definition sel_oracle :: oracle_ci where
  "sel_oracle = \<lparr>self_links = [(0, [Link 2 (- 1)]), (1, []), (2, [])], self_N = 3,
                  self_observed_vars = [0, 1], self_selection_vars = [2], self_dsepsets = [],
                  self_max_lag = None, dsep_calls = 0\<rparr>"

text \<open>Variable 0 with the parent 1 at lag 0 and at lag 1.\<close>

definition two_lag_links :: links_t where
  "two_lag_links = [(0, [Link 1 0, Link 1 (- 1)]), (1, [])]"

text \<open>The array with \<^verbatim>\<open>graph[1, 0, 0] = "-->"\<close> and \<^verbatim>\<open>graph[0, 1, 0] = "<--"\<close>.\<close>

definition directed_graph :: graph_array where
  "directed_graph =
     \<lparr>g_N = 2, g_T = 1,
      g_cell = (\<lambda>i j tau. if (i, j, tau) = (1, 0, 0) then ''-->''
                           else if (i, j, tau) = (0, 1, 0) then ''<--'' else [])\<rparr>"

text \<open>The array with the single entry \<^verbatim>\<open>graph[0, 1, 1] = "---"\<close>.\<close>

definition undirected_graph :: graph_array where
  "undirected_graph =
     \<lparr>g_N = 2, g_T = 2,
      g_cell = (\<lambda>i j tau. if (i, j, tau) = (0, 1, 1) then ''---'' else [])\<rparr>"

section \<open>Properties\<close>

subsection \<open>The query that never returns\<close>

lemma ex_init: "init_links ex_links None None = Inr ex_oracle"
  by code_simp

lemma ex_children: "get_children ex_links = Inr (ctx_children ex_ctx)"
  by code_simp

lemma ex_max_lag: "get_max_lag_from_XYZ ex_oracle [(0, 0)] [(1, 0)] [(5, 0)] = Some (Inr 0)"
  by code_simp

lemma ex_search:
  "search_while ex_ctx (0, 0) [((0, 0), NoMark)] [((1, 0), NoMark)]
     [((0, 0), [(NoMark, None)])] [((1, 0), [(NoMark, None)])]
   = Some (Inr (Some (((2, 0), Tail), ex_pred, ex_succ)))"
  by code_simp

text \<open>One turn of the loop takes a pair of the cycle to a pair of the cycle.\<close>

lemma ex_cycle_step:
  assumes "(node, mark) \<in> ex_cycle"
  shows "\<exists>prev_node prev_mark mark'.
           dict_get ex_pred node = Inr (the (map_of ex_pred node)) \<and>
           dict_get (the (map_of ex_pred node)) mark = Inr (Some (prev_node, prev_mark)) \<and>
           next_mark ex_pred [(5, 0)] node mark prev_node prev_mark = Inr mark' \<and>
           (prev_node, mark') \<in> ex_cycle \<and> prev_node \<noteq> (0, 0)"
  using assms
  by (auto simp: ex_cycle_def ex_pred_def dict_get_def next_mark_def)

lemma ex_backtrace_never:
  assumes "backtrace_while d conds target path node mark = Some r"
  shows "\<not> (d = ex_pred \<and> conds = [(5, 0)] \<and> target = (0, 0) \<and> last path = node
            \<and> (node, mark) \<in> ex_cycle)"
proof (rule backtrace_while.raw_induct
         [where P = "\<lambda>d conds target path node mark r.
            \<not> (d = ex_pred \<and> conds = [(5, 0)] \<and> target = (0, 0) \<and> last path = node
               \<and> (node, mark) \<in> ex_cycle)", OF _ assms])
  fix f :: "path_dict \<Rightarrow> node list \<Rightarrow> node \<Rightarrow> node list \<Rightarrow> node \<Rightarrow> mark
              \<Rightarrow> (error + node list) option"
  fix d conds target path node mark r
  assume IH: "\<And>d conds target path node mark r. f d conds target path node mark = Some r \<Longrightarrow>
            \<not> (d = ex_pred \<and> conds = [(5, 0)] \<and> target = (0, 0) \<and> last path = node
               \<and> (node, mark) \<in> ex_cycle)"
  assume body: "(if last path \<noteq> target
      then case dict_get d node of Inl e \<Rightarrow> Some (Inl e)
           | Inr md \<Rightarrow>
               case dict_get md mark of Inl e \<Rightarrow> Some (Inl e)
               | Inr None \<Rightarrow> Some (Inl TypeError)
               | Inr (Some (prev_node, prev_mark)) \<Rightarrow>
                   case next_mark d conds node mark prev_node prev_mark of
                   Inl e \<Rightarrow> Some (Inl e)
                   | Inr mark' \<Rightarrow> f d conds target (path @ [prev_node]) prev_node mark'
      else Some (Inr path)) = Some r"
  show "\<not> (d = ex_pred \<and> conds = [(5, 0)] \<and> target = (0, 0) \<and> last path = node
            \<and> (node, mark) \<in> ex_cycle)"
  proof
    assume inv: "d = ex_pred \<and> conds = [(5, 0)] \<and> target = (0, 0) \<and> last path = node
            \<and> (node, mark) \<in> ex_cycle"
    then have ne: "last path \<noteq> target"
      by (auto simp: ex_cycle_def)
    from inv ex_cycle_step obtain prev_node prev_mark mark' where
      st: "dict_get ex_pred node = Inr (the (map_of ex_pred node))"
          "dict_get (the (map_of ex_pred node)) mark = Inr (Some (prev_node, prev_mark))"
          "next_mark ex_pred [(5, 0)] node mark prev_node prev_mark = Inr mark'"
          "(prev_node, mark') \<in> ex_cycle"
      by blast
    from body ne inv st
    have "f ex_pred [(5, 0)] (0, 0) (path @ [prev_node]) prev_node mark' = Some r"
      by simp
    from IH[OF this] st(4) show False
      by simp
  qed
qed

lemma ex_backtrace_None:
  "backtrace_while ex_pred [(5, 0)] (0, 0) [(2, 0)] (2, 0) Tail = None"
proof (cases "backtrace_while ex_pred [(5, 0)] (0, 0) [(2, 0)] (2, 0) Tail")
  case None
  then show ?thesis .
next
  case (Some r)
  from ex_backtrace_never[OF this] show ?thesis
    by (simp add: ex_cycle_def)
qed

lemma ex_has_path: "has_path_xy ex_ctx (0, 0) (1, 0) = None"
proof -
  have sm: "start_mark ex_pred (2, 0) = Inr Tail"
    by (simp add: start_mark_def dict_get_def ex_pred_def)
  have cc: "ctx_conds ex_ctx = [(5, 0)]"
    by (simp add: ex_ctx_def)
  show ?thesis
    by (simp add: has_path_xy_def ex_search backtrace_path_def sm cc ex_backtrace_None)
qed

lemma ex_any_path:
  assumes "self_links orc = ex_links" "self_selection_vars orc = []"
  shows "has_any_path orc [(0, 0)] [(1, 0)] [(5, 0)] 0 False = None"
proof -
  have pc: "path_conds [] [(0, 0)] [(1, 0)] [(5, 0)] 0 = [(5, 0)]"
    by (simp add: path_conds_def selection_conds_def)
  have ctx: "\<lparr>ctx_links = ex_links, ctx_children = ctx_children ex_ctx,
             ctx_conds = [(5, 0)], ctx_max_lag = 0, ctx_backdoor = False\<rparr> = ex_ctx"
    by (simp add: ex_ctx_def)
  show ?thesis
    by (simp add: has_any_path_def assms ex_children pc ctx ex_has_path)
qed

text \<open>The ancestor search reads the links and the selection variables only.\<close>

lemma max_lag_cong:
  assumes "self_links orc = self_links orc'" "self_selection_vars orc = self_selection_vars orc'"
  shows "get_max_lag_from_XYZ orc X Y Z = get_max_lag_from_XYZ orc' X Y Z"
proof -
  have h: "get_non_blocked_ancestors orc = get_non_blocked_ancestors orc'"
    unfolding get_non_blocked_ancestors_def assms by (rule refl)
  show ?thesis
    unfolding get_max_lag_from_XYZ_def h by (rule refl)
qed

lemma ex_run_test_None:
  "run_test ex_oracle [[0, 0]] [[1, 0]] (Some [[5, 0]]) tau_max cut_off = None"
proof -
  have cq: "canonical_query ex_oracle [[0, 0]] [[1, 0]] (Some [[5, 0]])
              = Inr ([(0, 0)], [(1, 0)], [(5, 0)])"
    by code_simp
  have ml: "get_max_lag_from_XYZ (ex_oracle\<lparr>dsep_calls := Suc (dsep_calls ex_oracle)\<rparr>)
              [(0, 0)] [(1, 0)] [(5, 0)] = Some (Inr 0)"
    using max_lag_cong[of "ex_oracle\<lparr>dsep_calls := Suc (dsep_calls ex_oracle)\<rparr>" ex_oracle]
      ex_max_lag
    by simp
  have ds: "self_dsepsets ex_oracle = []"
    by (simp add: ex_oracle_def)
  have l: "self_links ex_oracle = ex_links" "self_selection_vars ex_oracle = []"
    by (simp_all add: ex_oracle_def)
  have "is_dsep (ex_oracle\<lparr>dsep_calls := Suc (dsep_calls ex_oracle)\<rparr>)
          [(0, 0)] [(1, 0)] [(5, 0)] None = None"
    by (simp add: is_dsep_def ml ex_any_path l)
  then show ?thesis
    by (simp add: run_test_def cq ds)
qed

lemma ex_run_test_swapped:
  "run_test ex_oracle [[1, 0]] [[0, 0]] (Some [[5, 0]]) 0 [] = Some (Inr (1, 0), ex_oracle_after)"
  by code_simp

text \<open>
  C1. \<^verbatim>\<open>run_test\<close> returns \<open>(0.0, 1.0)\<close> for every valid query whose \<open>X\<close> and
  \<open>Y\<close> are d-separated given \<open>Z\<close>, and \<open>(1.0, 0.0)\<close> for every other valid query.
  On the oracle built from \<open>ex_links\<close> the valid query \<open>X = [(0, 0)]\<close>, \<open>Y = [(1, 0)]\<close>,
  \<open>Z = [(5, 0)]\<close> has the open path \<open>0 \<rightarrow> 2 \<leftarrow> 1\<close> (the collider 2 has the conditioned
  descendant 5), and \<^verbatim>\<open>run_test\<close> returns nothing: the search finds the connection,
  and the first loop of \<^verbatim>\<open>backtrace_path\<close> never reaches \<open>x\<close>.
\<close>

theorem run_test_never_returns:
  "init_links ex_links None None = Inr ex_oracle
   \<and> run_test ex_oracle [[0, 0]] [[1, 0]] (Some [[5, 0]]) 0 ''2xtau_max'' = None"
  using ex_init ex_run_test_None by simp

text \<open>
  C2. \<^verbatim>\<open>run_test(X, Y, Z)\<close> and \<^verbatim>\<open>run_test(Y, X, Z)\<close> report the same pair for
  every valid query. On the oracle built from \<open>ex_links\<close>, with \<open>X = [(0, 0)]\<close>,
  \<open>Y = [(1, 0)]\<close> and \<open>Z = [(5, 0)]\<close>, the first call returns nothing and the second
  returns \<open>(1.0, 0.0)\<close>.
\<close>

theorem run_test_not_symmetric:
  "run_test ex_oracle [[0, 0]] [[1, 0]] (Some [[5, 0]]) 0 ''2xtau_max'' = None
   \<and> map_option fst (run_test ex_oracle [[1, 0]] [[0, 0]] (Some [[5, 0]]) 0 ''2xtau_max'')
       = Some (Inr (1, 0))"
proof -
  have "run_test ex_oracle [[1, 0]] [[0, 0]] (Some [[5, 0]]) 0 ''2xtau_max''
          = run_test ex_oracle [[1, 0]] [[0, 0]] (Some [[5, 0]]) 0 []"
    by (simp add: run_test_def)
  then show ?thesis
    using ex_run_test_None ex_run_test_swapped by simp
qed

subsection \<open>The link index and the selection variables\<close>

text \<open>
  C5. The lagged-parents query of a node yields the pairs
  (parent variable, node lag + relative lag) of the links with a non-zero coefficient, and
  with the exclusion of contemporaneous links requested it skips the links of relative
  lag 0. For the node \<open>(0, -1)\<close> of \<open>two_lag_links\<close> the source, asked to exclude, still
  yields \<open>(1, -1)\<close>, the parent through the link of relative lag 0; for the node \<open>(0, 0)\<close>
  it yields nothing, not even the parent \<open>(1, -1)\<close> through the lagged link.
\<close>

theorem lagged_parents_exclusion_reads_node_lag:
  "get_lagged_parents two_lag_links (0, - 1) True = Inr [(1, - 1), (1, - 2)]
   \<and> get_lagged_parents two_lag_links (0, 0) True = Inr []"
  by (simp add: get_lagged_parents_def two_lag_links_def dict_get_def)

text \<open>
  C6. Every search of a query conditions on every selection variable at every lag from 0
  to the time bound of that search. The ancestor search of \<open>sel_oracle\<close> from \<open>(0, 0)\<close>
  reports the bound 1, its conditioning list holds the selection variable 2 at lag 0
  only, and the selection variable at lag 1, the node \<open>(2, -1)\<close>, is reported as a
  non-blocked ancestor.
\<close>

theorem ancestor_search_selection_lag_zero_only:
  "get_non_blocked_ancestors sel_oracle [(0, 0)] [] NonRepeating None
     = Some (Inr ([((0, 0), [(2, - 1)])], 1))
   \<and> anc_conds (self_selection_vars sel_oracle) [(0, 0)] [] 0 = [(2, 0)]"
  by code_simp

subsection \<open>The scalar measure\<close>

text \<open>
  C7. \<^verbatim>\<open>get_measure\<close> returns 0 for a d-separated query and 1 otherwise. In the
  source every call ends in an exception, and the oracle is left as it was.
\<close>

theorem get_measure_always_raises:
  "\<exists>e. get_measure orc X Y Z tau_max = (Inl e, orc)"
  by (simp add: get_measure_def split: sum.splits option.splits)

subsection \<open>The unused arguments\<close>

text \<open>
  C10. The result of \<^verbatim>\<open>run_test\<close>, the pair it returns and the oracle with its
  cache, is the same for any two values of \<^verbatim>\<open>tau_max\<close> and of \<^verbatim>\<open>cut_off\<close>.
\<close>

theorem run_test_ignores_tau_max_cut_off:
  "run_test orc X Y Z tau_max cut_off = run_test orc X Y Z tau_max' cut_off'"
  by (simp add: run_test_def)


subsection \<open>Rejected queries\<close>

lemma mapE_Inr_all:
  assumes "mapE f xs = Inr ys"
  shows "\<forall>x \<in> set xs. \<exists>y. f x = Inr y"
  using assms
  by (induction xs arbitrary: ys) (auto split: sum.splits)

lemma translate_short_tuple:
  assumes "length x < 2"
  shows "\<exists>e. translate_node observed x = Inl e"
proof (cases x)
  case Nil
  then show ?thesis
    by (simp add: translate_node_def py_index_def)
next
  case (Cons a as)
  with assms have "as = []"
    by simp
  with Cons show ?thesis
    by (simp add: translate_node_def py_index_def split: sum.splits)
qed

lemma mapE_short_tuple:
  assumes "x \<in> set xs" "length x < 2"
  shows "\<exists>e. mapE (translate_node observed) xs = Inl e"
proof (cases "mapE (translate_node observed) xs")
  case (Inl e)
  then show ?thesis
    by blast
next
  case (Inr ys)
  from mapE_Inr_all[OF this] assms(1) obtain y where "translate_node observed x = Inr y"
    by blast
  with translate_short_tuple[OF assms(2), of observed] show ?thesis
    by simp
qed

lemma check_XYZ_violation:
  assumes "(\<exists>n \<in> set (dedup X @ dedup Y
                @ filter (\<lambda>n. n \<notin> set (dedup X) \<and> n \<notin> set (dedup Y)) (dedup Z)).
              snd n > 0 \<or> fst n < 0 \<or> N \<le> fst n)
           \<or> (\<forall>n \<in> set (dedup Y). snd n \<noteq> 0)"
  shows "\<exists>e. check_XYZ N X Y Z = Inl e"
  using assms
  by (auto simp: check_XYZ_def Let_def)

lemma run_test_canonical_error:
  assumes "canonical_query orc X Y Z = Inl e"
  shows "run_test orc X Y Z tau_max cut_off = Some (Inl e, orc)"
  using assms
  by (simp add: run_test_def)

lemma canonical_query_short_tuple:
  assumes "\<exists>x \<in> set X \<union> set Y \<union> set Zl. length x < 2"
  shows "\<exists>e. canonical_query orc X Y (Some Zl) = Inl e"
proof -
  from assms obtain x where x: "x \<in> set X \<or> x \<in> set Y \<or> x \<in> set Zl" "length x < 2"
    by blast
  show ?thesis
  proof (cases "canonical_query orc X Y (Some Zl)")
    case (Inl e)
    then show ?thesis
      by blast
  next
    case (Inr key)
    then obtain X1 Y1 Z1 where
      t: "mapE (translate_node (self_observed_vars orc)) X = Inr X1"
         "mapE (translate_node (self_observed_vars orc)) Y = Inr Y1"
         "mapE (translate_node (self_observed_vars orc)) Zl = Inr Z1"
      by (auto simp: canonical_query_def split: sum.splits)
    from x mapE_short_tuple[of x _ "self_observed_vars orc"] t show ?thesis
      by fastforce
  qed
qed

text \<open>
  What \<^verbatim>\<open>run_test\<close> does reject: it raises, returns no result and leaves the oracle
  with its cache as it was, whenever a node of the query is a tuple of fewer than two
  components, or the translated, deduplicated and filtered query has a node of positive
  lag, a node whose variable is outside \<open>[0, N)\<close>, or no node of \<open>Y\<close> at lag 0.
\<close>

lemma run_test_rejects_malformed_query:
  assumes "(\<exists>x \<in> set X \<union> set Y \<union> set Zl. length x < 2)
           \<or> (mapE (translate_node (self_observed_vars orc)) X = Inr X1
               \<and> mapE (translate_node (self_observed_vars orc)) Y = Inr Y1
               \<and> mapE (translate_node (self_observed_vars orc)) Zl = Inr Z1
               \<and> ((\<exists>n \<in> set (dedup X1 @ dedup Y1
                         @ filter (\<lambda>n. n \<notin> set (dedup X1) \<and> n \<notin> set (dedup Y1)) (dedup Z1)).
                       snd n > 0 \<or> fst n < 0 \<or> self_N orc \<le> fst n)
                    \<or> (\<forall>n \<in> set (dedup Y1). snd n \<noteq> 0)))"
  shows "\<exists>e. run_test orc X Y (Some Zl) tau_max cut_off = Some (Inl e, orc)"
proof -
  have "\<exists>e. canonical_query orc X Y (Some Zl) = Inl e"
    using assms
  proof
    assume "\<exists>x \<in> set X \<union> set Y \<union> set Zl. length x < 2"
    then show ?thesis
      by (rule canonical_query_short_tuple)
  next
    assume a: "mapE (translate_node (self_observed_vars orc)) X = Inr X1
               \<and> mapE (translate_node (self_observed_vars orc)) Y = Inr Y1
               \<and> mapE (translate_node (self_observed_vars orc)) Zl = Inr Z1
               \<and> ((\<exists>n \<in> set (dedup X1 @ dedup Y1
                         @ filter (\<lambda>n. n \<notin> set (dedup X1) \<and> n \<notin> set (dedup Y1)) (dedup Z1)).
                       snd n > 0 \<or> fst n < 0 \<or> self_N orc \<le> fst n)
                    \<or> (\<forall>n \<in> set (dedup Y1). snd n \<noteq> 0))"
    then have "\<exists>e. check_XYZ (self_N orc) X1 Y1 Z1 = Inl e"
      by (intro check_XYZ_violation) blast
    with a show ?thesis
      by (auto simp: canonical_query_def)
  qed
  then show ?thesis
    using run_test_canonical_error by blast
qed

text \<open>The query \<open>X = [(0, 1)]\<close>, of positive lag, on the seven-variable oracle.\<close>

lemma run_test_rejects_malformed_query_witness:
  "mapE (translate_node (self_observed_vars ex_oracle)) [[0, 1]] = Inr [(0, 1)]
   \<and> mapE (translate_node (self_observed_vars ex_oracle)) [[1, 0]] = Inr [(1, 0)]
   \<and> mapE (translate_node (self_observed_vars ex_oracle)) [] = Inr []
   \<and> (\<exists>n \<in> set (dedup [(0, 1)] @ dedup [(1, 0)]
            @ filter (\<lambda>n. n \<notin> set (dedup [(0, 1)]) \<and> n \<notin> set (dedup [(1, 0)])) (dedup [])).
          snd n > (0 :: int))
   \<and> (\<exists>e. run_test ex_oracle [[0, 1]] [[1, 0]] (Some []) 0 [] = Some (Inl e, ex_oracle))"
proof -
  have t: "mapE (translate_node (self_observed_vars ex_oracle)) [[0, 1]] = Inr [(0, 1)]"
          "mapE (translate_node (self_observed_vars ex_oracle)) [[1, 0]] = Inr [(1, 0)]"
          "mapE (translate_node (self_observed_vars ex_oracle)) [] = Inr []"
    by (simp_all add: translate_node_def py_index_def ex_oracle_def)
  have v: "\<exists>n \<in> set (dedup [(0, 1)] @ dedup [(1, 0)]
            @ filter (\<lambda>n. n \<notin> set (dedup [(0, 1)]) \<and> n \<notin> set (dedup [(1, 0)])) (dedup [])).
          snd n > (0 :: int)"
    by (simp add: dedup_def)
  from t v have "\<exists>e. run_test ex_oracle [[0, 1]] [[1, 0]] (Some []) 0 [] = Some (Inl e, ex_oracle)"
    by (intro run_test_rejects_malformed_query [where ?X1.0 = "[(0, 1)]" and ?Y1.0 = "[(1, 0)]"
          and ?Z1.0 = "[]"]) blast
  with t v show ?thesis
    by blast
qed


text \<open>
  The translation \<^verbatim>\<open>self.observed_vars[x[0]]\<close> comes before \<^verbatim>\<open>_check_XYZ\<close>: an
  index from \<open>-len(observed_vars)\<close> to \<open>-1\<close> counts from the end of the list, and of a
  tuple only the first two components are read.
\<close>

lemma translate_node_wraps:
  assumes "- int (length observed) \<le> i" "i < 0"
  shows "translate_node observed (i # l # rest)
           = Inr (observed ! nat (int (length observed) + i), l)"
  using assms
  by (simp add: translate_node_def py_index_def)

lemma translate_node_truncates:
  "translate_node observed (i # l # rest) = translate_node observed [i, l]"
  by (simp add: translate_node_def py_index_def)

text \<open>
  C9. \<^verbatim>\<open>run_test\<close> raises, returns no result and writes no cache entry whenever a
  node of the query has a positive lag, a variable index outside \<open>[0, N)\<close> or a malformed
  tuple shape, or no node of \<open>Y\<close> has lag 0. On the seven-variable oracle the query with
  \<open>X = [(-1, 0)]\<close>, of variable index \<open>-1\<close>, is answered \<open>(1.0, 0.0)\<close>, as the query of
  the variable 6, and cached under that key; and the query with \<open>X = [(0, 0, 9)]\<close>, a
  tuple of three components, is answered \<open>(0.0, 1.0)\<close>, as the query of the node
  \<open>(0, 0)\<close>, and cached under that key.
\<close>

theorem run_test_answers_malformed_query:
  "map_option fst (run_test ex_oracle [[- 1, 0]] [[1, 0]] (Some []) 0 []) = Some (Inr (1, 0))
   \<and> map_option (\<lambda>r. self_dsepsets (snd r))
         (run_test ex_oracle [[- 1, 0]] [[1, 0]] (Some []) 0 [])
       = Some [(([(6, 0)], [(1, 0)], []), False)]
   \<and> map_option fst (run_test ex_oracle [[0, 0, 9]] [[1, 0]] (Some []) 0 []) = Some (Inr (0, 1))
   \<and> map_option (\<lambda>r. self_dsepsets (snd r))
         (run_test ex_oracle [[0, 0, 9]] [[1, 0]] (Some []) 0 [])
       = Some [(([(0, 0)], [(1, 0)], []), True)]"
  by code_simp

subsection \<open>Dictionaries\<close>

text \<open>Writing a new key appends it; writing an old key keeps the order of the keys.\<close>

lemma update_new_key:
  assumes "k \<notin> fst ` set al"
  shows "AList.update k v al = al @ [(k, v)]"
  using assms
  by (induction al) auto

lemma update_old_key:
  assumes "k \<in> fst ` set al"
  shows "map fst (AList.update k v al) = map fst al"
  using assms
  by (induction al) auto

subsection \<open>The memo cache\<close>








subsection \<open>The loop over the cells of a graph array\<close>

lemma foldE_invariant:
  assumes "foldE f s cs = Inr s'" "P s"
    and "\<And>s c s'. P s \<Longrightarrow> f s c = Inr s' \<Longrightarrow> P s'"
  shows "P s'"
  using assms(1,2)
proof (induction cs arbitrary: s)
  case Nil
  then show ?case
    by simp
next
  case (Cons c cs)
  then obtain s1 where s1: "f s c = Inr s1" "foldE f s1 cs = Inr s'"
    by (auto split: sum.splits)
  from assms(3)[OF Cons.prems(2) s1(1)] Cons.IH[OF s1(2)] show ?case
    by simp
qed

lemma foldE_each_step:
  assumes "foldE f s cs = Inr s'" "c \<in> set cs"
  shows "\<exists>s1 s2. f s1 c = Inr s2"
  using assms
proof (induction cs arbitrary: s)
  case Nil
  then show ?case
    by simp
next
  case (Cons a cs)
  then obtain s1 where s1: "f s a = Inr s1" "foldE f s1 cs = Inr s'"
    by (auto split: sum.splits)
  show ?case
  proof (cases "c = a")
    case True
    with s1(1) show ?thesis
      by blast
  next
    case False
    with Cons.prems(2) have "c \<in> set cs"
      by simp
    from Cons.IH[OF s1(2) this] show ?thesis .
  qed
qed

lemma compile_step_skip:
  assumes "compile_step g st (i, j, 0) = Inr st'" "i < j"
  shows "st' = st"
  using assms
  by (auto simp: compile_step_def split: sum.splits if_splits)

lemma compile_step_insert:
  assumes "compile_step g st (i, j, tau) = Inr st'" "\<not> (tau = 0 \<and> i < j)"
  shows "insert_edge g st (i, j, tau) = Inr st'"
  using assms
  by (auto simp: compile_step_def split: sum.splits if_splits)

lemma foldE_compile_processed:
  assumes "foldE (compile_step g) st cs = Inr st'"
  shows "foldE (insert_edge g) st (filter (\<lambda>(i, j, tau). \<not> (tau = 0 \<and> j > i)) cs) = Inr st'"
  using assms
proof (induction cs arbitrary: st)
  case Nil
  then show ?case
    by simp
next
  case (Cons c cs)
  obtain i j tau where c: "c = (i, j, tau)"
    by (cases c) auto
  from Cons.prems obtain s1 where
    s1: "compile_step g st c = Inr s1" "foldE (compile_step g) s1 cs = Inr st'"
    by (auto split: sum.splits)
  show ?case
  proof (cases "tau = 0 \<and> i < j")
    case True
    with s1(1) c compile_step_skip have "s1 = st"
      by blast
    with True c Cons.IH[OF s1(2)] show ?thesis
      by simp
  next
    case False
    with s1(1) c compile_step_insert have "insert_edge g st c = Inr s1"
      by blast
    with False c Cons.IH[OF s1(2)] show ?thesis
      by simp
  qed
qed

lemma distinct_nonzero_cells: "distinct (nonzero_cells g)"
  by (simp add: nonzero_cells_def distinct_product)

lemma nonzero_cells_iff:
  "(i, j, tau) \<in> set (nonzero_cells g)
     \<longleftrightarrow> i < g_N g \<and> j < g_N g \<and> tau < g_T g \<and> g_cell g i j tau \<noteq> []"
  by (auto simp: nonzero_cells_def)

text \<open>A lag-zero cell that passed the consistency test has a non-empty mirror cell.\<close>

lemma consistent_mirror:
  assumes "compile_step g s1 (i, j, 0) = Inr s2" "g_cell g i j 0 \<noteq> []"
  shows "g_cell g j i 0 \<noteq> []"
  using assms
  by (auto simp: compile_step_def reverse_patt_def split: sum.splits if_splits)

text \<open>
  C3, as the source has it. When the compilation of a graph array succeeds, its result
  is the result of inserting the edges of the processed cells, which are pairwise
  distinct; a non-empty lag-zero cell \<open>(i, j, 0)\<close> is processed if and only if \<open>j \<le> i\<close>;
  and of a contemporaneous pair \<open>i < j\<close> the cell \<open>(i, j, 0)\<close>, whose target index is the
  greater one, is skipped, and the mirror cell \<open>(j, i, 0)\<close> is processed.
\<close>

theorem contemporaneous_pair_processed_once:
  assumes "get_links_from_graph g = Inr (lks, observed, selection)"
  shows "(\<exists>st. foldE (insert_edge g) (compile_init g) (processed_cells g) = Inr st
               \<and> c_links st = lks \<and> c_selection_vars st = selection)
         \<and> distinct (processed_cells g)
         \<and> (\<forall>i j. (i, j, 0) \<in> set (nonzero_cells g)
               \<longrightarrow> ((i, j, 0) \<in> set (processed_cells g) \<longleftrightarrow> j \<le> i))
         \<and> (\<forall>i j. (i, j, 0) \<in> set (nonzero_cells g) \<and> i < j
               \<longrightarrow> (i, j, 0) \<notin> set (processed_cells g) \<and> (j, i, 0) \<in> set (processed_cells g))"
proof -
  from assms obtain st where
    st: "foldE (compile_step g) (compile_init g) (nonzero_cells g) = Inr st"
        "c_links st = lks" "c_selection_vars st = selection"
    by (auto simp: get_links_from_graph_def split: sum.splits)
  from foldE_compile_processed[OF st(1)] st(2,3)
  have a: "\<exists>st. foldE (insert_edge g) (compile_init g) (processed_cells g) = Inr st
               \<and> c_links st = lks \<and> c_selection_vars st = selection"
    by (auto simp: processed_cells_def)
  have b: "distinct (processed_cells g)"
    by (simp add: processed_cells_def distinct_nonzero_cells)
  have c: "\<forall>i j. (i, j, 0) \<in> set (nonzero_cells g)
               \<longrightarrow> ((i, j, 0) \<in> set (processed_cells g) \<longleftrightarrow> j \<le> i)"
    by (auto simp: processed_cells_def)
  have d: "\<forall>i j. (i, j, 0) \<in> set (nonzero_cells g) \<and> i < j
               \<longrightarrow> (i, j, 0) \<notin> set (processed_cells g) \<and> (j, i, 0) \<in> set (processed_cells g)"
  proof (intro allI impI)
    fix i j
    assume h: "(i, j, 0) \<in> set (nonzero_cells g) \<and> i < j"
    then obtain s1 s2 where "compile_step g s1 (i, j, 0) = Inr s2"
      using foldE_each_step[OF st(1)] by blast
    with h have "g_cell g j i 0 \<noteq> []"
      using consistent_mirror by (simp add: nonzero_cells_iff)
    with h have "(j, i, 0) \<in> set (nonzero_cells g)"
      by (simp add: nonzero_cells_iff)
    with h show "(i, j, 0) \<notin> set (processed_cells g) \<and> (j, i, 0) \<in> set (processed_cells g)"
      by (simp add: processed_cells_def)
  qed
  from a b c d show ?thesis
    by blast
qed

lemma directed_graph_cells: "nonzero_cells directed_graph = [(0, 1, 0), (1, 0, 0)]"
  by code_simp

lemma directed_graph_links:
  "get_links_from_graph directed_graph = Inr ([(0, [Link 1 0]), (1, [])], [0, 1], [])"
  by code_simp

text \<open>The array of the edge \<open>1 \<rightarrow> 0\<close>: the cell \<open>(0, 1, 0)\<close> is skipped, \<open>(1, 0, 0)\<close> is not.\<close>

theorem contemporaneous_pair_processed_once_witness:
  "get_links_from_graph directed_graph = Inr ([(0, [Link 1 0]), (1, [])], [0, 1], [])
   \<and> (0, 1, 0) \<in> set (nonzero_cells directed_graph)
   \<and> (0, 1, 0) \<notin> set (processed_cells directed_graph)
   \<and> (1, 0, 0) \<in> set (processed_cells directed_graph)
   \<and> distinct (processed_cells directed_graph)"
proof -
  have m: "(0, 1, 0) \<in> set (nonzero_cells directed_graph)"
    by (simp add: directed_graph_cells)
  from contemporaneous_pair_processed_once [OF directed_graph_links] m directed_graph_links
  show ?thesis
    by blast
qed

text \<open>
  C3, as the claim has it: a contemporaneous pair is processed at the cell whose target
  index is greater than its source index. In the array of the edge \<open>1 \<rightarrow> 0\<close> the loop
  body leaves the state as it is at the cell \<open>(0, 1, 0)\<close>, of target index 1 and source
  index 0, and inserts the edge at the cell \<open>(1, 0, 0)\<close>.
\<close>

theorem contemporaneous_pair_target_greater_counterexample:
  "compile_step directed_graph (compile_init directed_graph) (0, 1, 0)
     = Inr (compile_init directed_graph)
   \<and> compile_step directed_graph (compile_init directed_graph) (1, 0, 0)
       = Inr \<lparr>c_links = [(0, [Link 1 0]), (1, [])], c_selection_vars = [], c_latent_index = 2\<rparr>
   \<and> processed_cells directed_graph = [(1, 0, 0)]"
  by code_simp


subsection \<open>Selection variables of undirected edges\<close>

lemma links_append_keys:
  assumes "links_append lks j lp = Inr l"
  shows "map fst l = map fst lks"
proof -
  from assms obtain old where old: "map_of lks j = Some old" "l = AList.update j (old @ [lp]) lks"
    by (auto simp: links_append_def dict_get_def split: option.splits)
  from old(1) have "j \<in> fst ` set lks"
    by (metis map_of_eq_None_iff option.distinct(1))
  with old(2) show ?thesis
    by (simp add: update_old_key)
qed

text \<open>
  The keys of \<^verbatim>\<open>links\<close> are \<open>0, \<dots>, latent_index - 1\<close> all along the loop, so
  \<^verbatim>\<open>latent_index\<close> is a key the dictionary does not have yet.
\<close>

lemma upto_latent:
  assumes "0 \<le> (L :: int)"
  shows "map int [0..<nat (L + 1)] = map int [0..<nat L] @ [L]"
proof -
  from assms have "nat (L + 1) = Suc (nat L)"
    by simp
  with assms show ?thesis
    by simp
qed

lemma fresh_latent:
  assumes "map fst lks = map int [0..<nat L]" "0 \<le> L"
  shows "L \<notin> fst ` set lks"
proof
  assume "L \<in> fst ` set lks"
  then have "L \<in> set (map fst lks)"
    by simp
  with assms(1) have "L \<in> int ` {0..<nat L}"
    by simp
  with assms(2) show False
    by auto
qed

lemma insert_edge_keys:
  assumes "insert_edge g st c = Inr st'"
    and "map fst (c_links st) = map int [0..<nat (c_latent_index st)] \<and> 0 \<le> c_latent_index st"
  shows "map fst (c_links st') = map int [0..<nat (c_latent_index st')] \<and> 0 \<le> c_latent_index st'"
proof -
  obtain i j tau where c: "c = (i, j, tau)"
    by (cases c) auto
  let ?L = "c_latent_index st"
  from assms(2) have fresh: "?L \<notin> fst ` set (c_links st)"
    using fresh_latent by blast
  then have new: "map fst (AList.update ?L [] (c_links st)) = map int [0..<nat (?L + 1)]"
    using assms(2) by (simp add: update_new_key upto_latent)
  consider (fwd) "g_cell g i j tau = ''-->''" | (bwd) "g_cell g i j tau = ''<--''"
    | (bi) "g_cell g i j tau = ''<->''" | (un) "g_cell g i j tau = ''---''"
    | (other) "g_cell g i j tau \<notin> {''-->'', ''<--'', ''<->'', ''---''}"
    by blast
  then show ?thesis
  proof cases
    case fwd
    with assms(1) c obtain l where
      "links_append (c_links st) (int j) (Link (int i) (- int tau)) = Inr l" "st' = st\<lparr>c_links := l\<rparr>"
      by (auto simp: insert_edge_def Let_def split: sum.splits)
    with assms(2) links_append_keys show ?thesis
      by fastforce
  next
    case bwd
    with assms(1) c obtain l where
      "links_append (c_links st) (int i) (Link (int j) (- int tau)) = Inr l" "st' = st\<lparr>c_links := l\<rparr>"
      by (auto simp: insert_edge_def Let_def split: sum.splits)
    with assms(2) links_append_keys show ?thesis
      by fastforce
  next
    case bi
    with assms(1) c obtain l1 l2 where
      l: "links_append (AList.update ?L [] (c_links st)) (int i) (Link ?L 0) = Inr l1"
         "links_append l1 (int j) (Link ?L (- int tau)) = Inr l2"
         "st' = st\<lparr>c_links := l2, c_latent_index := ?L + 1\<rparr>"
      by (auto simp: insert_edge_def Let_def split: sum.splits)
    from links_append_keys[OF l(1)] links_append_keys[OF l(2)] new
    have "map fst l2 = map int [0..<nat (?L + 1)]"
      by simp
    with l(3) assms(2) show ?thesis
      by simp
  next
    case un
    with assms(1) c obtain l1 l2 where
      l: "links_append (AList.update ?L [] (c_links st)) ?L (Link (int i) (- int tau)) = Inr l1"
         "links_append l1 ?L (Link (int j) 0) = Inr l2"
         "st' = st\<lparr>c_links := l2, c_selection_vars := c_selection_vars st @ [?L],
                    c_latent_index := ?L + 1\<rparr>"
      by (auto simp: insert_edge_def Let_def split: sum.splits)
    from links_append_keys[OF l(1)] links_append_keys[OF l(2)] new
    have "map fst l2 = map int [0..<nat (?L + 1)]"
      by simp
    with l(3) assms(2) show ?thesis
      by simp
  next
    case other
    with assms(1) c have "st' = st"
      by (auto simp: insert_edge_def Let_def)
    with assms(2) show ?thesis
      by simp
  qed
qed

lemma compile_step_keys:
  assumes "map fst (c_links st) = map int [0..<nat (c_latent_index st)] \<and> 0 \<le> c_latent_index st"
    and "compile_step g st c = Inr st'"
  shows "map fst (c_links st') = map int [0..<nat (c_latent_index st')] \<and> 0 \<le> c_latent_index st'"
proof -
  obtain i j tau where c: "c = (i, j, tau)"
    by (cases c) auto
  show ?thesis
  proof (cases "tau = 0 \<and> i < j")
    case True
    with assms(2) c compile_step_skip have "st' = st"
      by blast
    with assms(1) show ?thesis
      by simp
  next
    case False
    with assms(2) c compile_step_insert have "insert_edge g st c = Inr st'"
      by blast
    from insert_edge_keys[OF this assms(1)] show ?thesis .
  qed
qed

lemma compile_init_keys:
  "map fst (c_links (compile_init g)) = map int [0..<nat (c_latent_index (compile_init g))]
   \<and> 0 \<le> c_latent_index (compile_init g)"
  by (simp add: compile_init_def comp_def)

lemma compile_keys:
  assumes "foldE (compile_step g) (compile_init g) cs = Inr st"
  shows "map fst (c_links st) = map int [0..<nat (c_latent_index st)] \<and> 0 \<le> c_latent_index st"
  using assms compile_init_keys compile_step_keys
  by (rule foldE_invariant
        [where P = "\<lambda>st. map fst (c_links st) = map int [0..<nat (c_latent_index st)]
                          \<and> 0 \<le> c_latent_index st"])

lemma update_last_key:
  assumes "k \<notin> fst ` set al"
  shows "AList.update k v' (al @ [(k, v)]) = al @ [(k, v')]"
  using assms
  by (induction al) auto

lemma undirected_insert:
  assumes "g_cell g i j tau = ''---''" "c_latent_index st \<notin> fst ` set (c_links st)"
  shows "insert_edge g st (i, j, tau)
           = Inr (st\<lparr>c_links := c_links st
                        @ [(c_latent_index st, [Link (int i) (- int tau), Link (int j) 0])],
                     c_selection_vars := c_selection_vars st @ [c_latent_index st],
                     c_latent_index := c_latent_index st + 1\<rparr>)"
proof -
  let ?L = "c_latent_index st"
  have u: "AList.update ?L [] (c_links st) = c_links st @ [(?L, [])]"
    using assms(2) by (rule update_new_key)
  have n: "map_of (c_links st) ?L = None"
    using assms(2) by (simp add: map_of_eq_None_iff)
  have m: "map_of (c_links st @ [(?L, v)]) ?L = Some v" for v
    using n by (simp add: map_add_def)
  have w: "AList.update ?L v' (c_links st @ [(?L, v)]) = c_links st @ [(?L, v')]" for v v'
    using assms(2) by (rule update_last_key)
  have a1: "links_append (AList.update ?L [] (c_links st)) ?L lp = Inr (c_links st @ [(?L, [lp])])"
    for lp
    unfolding links_append_def dict_get_def u by (simp only: m w option.case sum.case append_Nil)
  have a2: "links_append (c_links st @ [(?L, [lp1])]) ?L lp2 = Inr (c_links st @ [(?L, [lp1, lp2])])"
    for lp1 lp2
    unfolding links_append_def dict_get_def
    by (simp only: m w option.case sum.case append_Cons append_Nil)
  show ?thesis
    using assms(1) by (simp add: insert_edge_def Let_def a1 a2)
qed

text \<open>
  C4, as the source has it. In any state the loop reaches, a cell \<open>"---"\<close> that the loop
  processes (a lagged one, or a lag-zero one with \<open>j \<le> i\<close> whose mirror cell is \<open>"---"\<close>
  too) gets the variable \<^verbatim>\<open>latent_index\<close>, which is not yet a key of the links; the
  variable is appended to the selection variables; its link list becomes
  \<open>[(i, -tau), (j, 0)]\<close>, so that both endpoints are parents of the selection variable;
  and the link lists of all other variables, the endpoints among them, stay as they are.
\<close>

theorem undirected_cell_allocates_selection_child:
  assumes "foldE (compile_step g) (compile_init g) cs = Inr st"
    and "g_cell g i j tau = ''---''"
    and "0 < tau \<or> (j \<le> i \<and> g_cell g j i 0 = ''---'')"
  shows "c_latent_index st \<notin> fst ` set (c_links st)
         \<and> compile_step g st (i, j, tau)
             = Inr (st\<lparr>c_links := c_links st
                          @ [(c_latent_index st, [Link (int i) (- int tau), Link (int j) 0])],
                       c_selection_vars := c_selection_vars st @ [c_latent_index st],
                       c_latent_index := c_latent_index st + 1\<rparr>)"
proof -
  from compile_keys[OF assms(1)] have fresh: "c_latent_index st \<notin> fst ` set (c_links st)"
    using fresh_latent by blast
  have "compile_step g st (i, j, tau) = insert_edge g st (i, j, tau)"
    using assms(2,3) by (auto simp: compile_step_def reverse_patt_def)
  with undirected_insert[OF assms(2) fresh] fresh show ?thesis
    by simp
qed

lemma undirected_graph_links:
  "get_links_from_graph undirected_graph
     = Inr ([(0, []), (1, []), (2, [Link 0 (- 1), Link 1 0])], [0, 1], [2])"
  by code_simp

text \<open>The cell \<open>(0, 1, 1)\<close> of the array whose only entry it is, in the initial state.\<close>

theorem undirected_cell_allocates_selection_child_witness:
  "foldE (compile_step undirected_graph) (compile_init undirected_graph) []
     = Inr (compile_init undirected_graph)
   \<and> g_cell undirected_graph 0 1 1 = ''---''
   \<and> compile_step undirected_graph (compile_init undirected_graph) (0, 1, 1)
       = Inr \<lparr>c_links = [(0, []), (1, []), (2, [Link 0 (- 1), Link 1 0])],
              c_selection_vars = [2], c_latent_index = 3\<rparr>"
proof -
  have a: "foldE (compile_step undirected_graph) (compile_init undirected_graph) []
             = Inr (compile_init undirected_graph)"
    by simp
  have b: "g_cell undirected_graph 0 1 1 = ''---''"
    by (simp add: undirected_graph_def)
  have ci: "compile_init undirected_graph
              = \<lparr>c_links = [(0, []), (1, [])], c_selection_vars = [], c_latent_index = 2\<rparr>"
    by code_simp
  from undirected_cell_allocates_selection_child [OF a b] a b show ?thesis
    by (simp add: ci)
qed

text \<open>
  C4, as the claim has it: the selection variable is linked as a parent of both
  endpoints. The array with the single cell \<open>graph[0, 1, 1] = "---"\<close> compiles to links in
  which the endpoints 0 and 1 have no parent at all, and the selection variable 2 has
  the parents \<open>(0, -1)\<close> and \<open>(1, 0)\<close>.
\<close>

theorem selection_variable_parent_counterexample:
  "get_links_from_graph undirected_graph
     = Inr ([(0, []), (1, []), (2, [Link 0 (- 1), Link 1 0])], [0, 1], [2])
   \<and> get_lagged_parents [(0, []), (1, []), (2, [Link 0 (- 1), Link 1 0])] (0, 0) False = Inr []
   \<and> get_lagged_parents [(0, []), (1, []), (2, [Link 0 (- 1), Link 1 0])] (1, 0) False = Inr []
   \<and> get_lagged_parents [(0, []), (1, []), (2, [Link 0 (- 1), Link 1 0])] (2, 0) False
       = Inr [(0, - 1), (1, 0)]"
  using undirected_graph_links
  by (simp add: get_lagged_parents_def dict_get_def)


subsection \<open>What the two searches condition on\<close>

lemma sel_oracle_init:
  "init_links [(0, [Link 2 (- 1)]), (1, []), (2, [])] (Some [0, 1]) (Some [2]) = Inr sel_oracle"
  by code_simp

text \<open>
  The path search conditions on every selection variable at every lag from 0 to its
  \<^verbatim>\<open>max_lag\<close>, whatever the query is.
\<close>

lemma selection_conds_mem:
  "(s, l) \<in> set (selection_conds selection_vars max_lag)
     \<longleftrightarrow> s \<in> set selection_vars \<and> (\<exists>t \<in> {0..max_lag}. l = - t)"
  by (auto simp: selection_conds_def range0_def)

lemma selection_conds_iff:
  "(s, l) \<in> set (selection_conds selection_vars max_lag)
     \<longleftrightarrow> s \<in> set selection_vars \<and> - max_lag \<le> l \<and> l \<le> 0"
proof -
  have "(\<exists>t \<in> {0..max_lag}. l = - t) \<longleftrightarrow> - max_lag \<le> l \<and> l \<le> 0"
  proof
    assume "\<exists>t \<in> {0..max_lag}. l = - t"
    then show "- max_lag \<le> l \<and> l \<le> 0"
      by auto
  next
    assume "- max_lag \<le> l \<and> l \<le> 0"
    then have "- l \<in> {0..max_lag} \<and> l = - (- l)"
      by simp
    then show "\<exists>t \<in> {0..max_lag}. l = - t"
      by blast
  qed
  then show ?thesis
    by (simp add: selection_conds_mem)
qed

lemma path_search_conditions_on_selection:
  assumes "s \<in> set selection_vars" "0 \<le> t" "t \<le> max_lag"
  shows "(s, - t) \<in> set (path_conds selection_vars X Y conds max_lag)"
  using assms
  by (simp add: path_conds_def selection_conds_iff)

text \<open>
  The ancestor search in mode \<^verbatim>\<open>'non_repeating'\<close>, the mode of every query, adds the
  selection variables at lag 0 and at no other lag.
\<close>

lemma ancestor_search_conditions_on_selection:
  "set (anc_conds selection_vars Y conds 0)
     = {z \<in> set conds. z \<notin> set Y} \<union> {(s, 0) | s. s \<in> set selection_vars}"
  by (auto simp: anc_conds_def selection_conds_iff)


end
